theory Spec2Isabelle
  imports Main "HOL-Library.Char_ord" "HOL-Library.List_Lexorder"
begin

section \<open>Data model\<close>

text \<open>
  \<^verbatim>\<open>type Param struct { ParamType, Name, Default, Usage string; Required bool }\<close>
\<close>

record Param =
  ParamType :: string
  Name :: string
  Default :: string
  Usage :: string
  Required :: bool

text \<open>The built-in type tags.\<close>

definition ParamTypeString :: string where "ParamTypeString = ''string''"
definition ParamTypeInt :: string where "ParamTypeInt = ''int''"
definition ParamTypeInt64 :: string where "ParamTypeInt64 = ''int64''"
definition ParamTypeBool :: string where "ParamTypeBool = ''bool''"
definition ParamTypeDuration :: string where "ParamTypeDuration = ''duration''"
definition ParamTypeJSON :: string where "ParamTypeJSON = ''json''"

text \<open>
  Every way a call can end other than by returning a value: an \<^verbatim>\<open>error\<close> value
  returned to the caller, one of the panics of the package (kept structured, the
  message's arguments as fields), a runtime panic of Go itself (failed type assertion,
  call of a nil function), and \<^verbatim>\<open>printfAndExit\<close>, which prints and ends the process.
\<close>

datatype fault =
    Error string
  | PanicExists string
  | PanicRequired string
  | PanicParse string string
  | PanicError string
  | PanicRuntime
  | Exit string

text \<open>
  A destination slot is a typed variable behind a pointer. The heap maps a pointer
  (an address) to the variable's current content; the constructor is the variable's
  Go type, which is what a type assertion \<^verbatim>\<open>ptr.(*string)\<close> inspects.
  \<^verbatim>\<open>SOther\<close> stands for receivers of any other type (JSON receivers, custom types),
  their content kept in rendered form.
\<close>

datatype slotval =
    SString string
  | SInt int
  | SInt64 int
  | SBool bool
  | SDuration int
  | SOther string

type_synonym ptr = nat
type_synonym heap = "ptr \<rightharpoonup> slotval"
type_synonym smap = "string \<rightharpoonup> string"

text \<open>
  \<^verbatim>\<open>type ParseFunc func(string, interface{}) error\<close>: given the raw string and the
  variable behind the pointer, the new content of the variable, an error, or a panic.
\<close>

type_synonym ParseFunc = "string \<Rightarrow> slotval \<Rightarrow> fault + slotval"

text \<open>
  The functions of Go's standard library that the package calls and whose code is not
  part of the repository are parameters of the model.
\<close>

record golib =
  Atoi :: "string \<Rightarrow> string + int"
  ParseInt64 :: "string \<Rightarrow> string + int"
  ParseDuration :: "string \<Rightarrow> string + int"
  Unmarshal :: "string \<Rightarrow> slotval \<Rightarrow> string + slotval"
  UnmarshalString :: "string \<Rightarrow> string + string"
  ToUpper :: "string \<Rightarrow> string"
  ToLower :: "string \<Rightarrow> string"
  Quote :: "string \<Rightarrow> string"

section \<open>Type registry: the built-in parsers\<close>

definition parseParamTypeString :: ParseFunc where
  "parseParamTypeString val slot =
     (case slot of SString _ \<Rightarrow> Inr (SString val) | _ \<Rightarrow> Inl PanicRuntime)"

definition parseParamTypeInt :: "golib \<Rightarrow> ParseFunc" where
  "parseParamTypeInt lib val slot =
     (case Atoi lib val of
        Inl err \<Rightarrow> Inl (Error err)
      | Inr vali \<Rightarrow> (case slot of SInt _ \<Rightarrow> Inr (SInt vali) | _ \<Rightarrow> Inl PanicRuntime))"

definition parseParamTypeInt64 :: "golib \<Rightarrow> ParseFunc" where
  "parseParamTypeInt64 lib val slot =
     (case ParseInt64 lib val of
        Inl err \<Rightarrow> Inl (Error err)
      | Inr vali \<Rightarrow> (case slot of SInt64 _ \<Rightarrow> Inr (SInt64 vali) | _ \<Rightarrow> Inl PanicRuntime))"

definition parseParamTypeBool :: ParseFunc where
  "parseParamTypeBool val slot =
     (case slot of
        SBool _ \<Rightarrow> Inr (SBool (val \<noteq> [] \<and> val \<noteq> ''false''))
      | _ \<Rightarrow> Inl PanicRuntime)"

definition parseParamTypeDuration :: "golib \<Rightarrow> ParseFunc" where
  "parseParamTypeDuration lib val slot =
     (case ParseDuration lib val of
        Inl err \<Rightarrow> Inl (Error err)
      | Inr d \<Rightarrow> (case slot of SDuration _ \<Rightarrow> Inr (SDuration d) | _ \<Rightarrow> Inl PanicRuntime))"

definition parseParamTypeJSON :: "golib \<Rightarrow> ParseFunc" where
  "parseParamTypeJSON lib val slot =
     (case Unmarshal lib val slot of Inl err \<Rightarrow> Inl (Error err) | Inr slot' \<Rightarrow> Inr slot')"

text \<open>The initial content of the table \<^verbatim>\<open>paramTypeParsers\<close>.\<close>

definition paramTypeParsers :: "golib \<Rightarrow> string \<rightharpoonup> ParseFunc" where
  "paramTypeParsers lib =
     [ParamTypeString \<mapsto> parseParamTypeString,
      ParamTypeInt \<mapsto> parseParamTypeInt lib,
      ParamTypeInt64 \<mapsto> parseParamTypeInt64 lib,
      ParamTypeBool \<mapsto> parseParamTypeBool,
      ParamTypeDuration \<mapsto> parseParamTypeDuration lib,
      ParamTypeJSON \<mapsto> parseParamTypeJSON lib]"

section \<open>Parameter registry\<close>

text \<open>\<^verbatim>\<open>type param struct { Param; ptr interface{} }\<close>\<close>

record param =
  decl :: Param
  ptr :: ptr

type_synonym registry = "string \<rightharpoonup> param"


section \<open>Deferred-initialization scheduler\<close>

text \<open>
  A callback is a Go closure. The model takes a callback to be a finite sequence of
  actions, each of them either an observable step (\<open>Emit\<close> with a label) or a call of
  \<^verbatim>\<open>Do\<close> with another callback; this is what the scheduler can tell apart.
\<close>

datatype act = Emit nat | DoCall "act list"

type_synonym callback = "act list"

text \<open>
  The process-wide state: the registry \<^verbatim>\<open>m\<close>, the variables behind the slot pointers,
  the goroutine \<^verbatim>\<open>spin\<close> (its local queue \<^verbatim>\<open>dos\<close>, and whether it has left its loop
  and closed \<^verbatim>\<open>doneCh\<close> and \<^verbatim>\<open>callCh\<close>), and the observable steps taken so far.
  All channels are unbuffered, so with one calling goroutine every send and receive is
  a rendezvous with \<^verbatim>\<open>spin\<close> and the interleaving is determined.
\<close>

record state =
  reg_m :: registry
  slots :: heap
  dos :: "callback list"
  doneCh_closed :: bool
  trace :: "nat list"

text \<open>
  Running the body of a callback. A nested \<^verbatim>\<open>Do(fn)\<close> selects between \<^verbatim>\<open><-doneCh\<close>
  (ready once the channel is closed: call \<^verbatim>\<open>fn\<close> now) and \<^verbatim>\<open>queueCh <- fn\<close> (ready
  while \<^verbatim>\<open>spin\<close> is in its loop, which appends \<^verbatim>\<open>fn\<close> to \<^verbatim>\<open>dos\<close>).
\<close>

fun run :: "callback \<Rightarrow> state \<Rightarrow> state" where
  "run [] st = st"
| "run (Emit n # as) st = run as (st\<lparr>trace := trace st @ [n]\<rparr>)"
| "run (DoCall g # as) st =
     run as (if doneCh_closed st then run g st else st\<lparr>dos := dos st @ [g]\<rparr>)"

definition Do :: "callback \<Rightarrow> state \<Rightarrow> state" where
  "Do fn st = (if doneCh_closed st then run fn st else st\<lparr>dos := dos st @ [fn]\<rparr>)"

text \<open>
  \<^verbatim>\<open>spin\<close> starts with the queue seeded with one empty function.
\<close>

definition spin_start :: "state \<Rightarrow> state" where
  "spin_start st = st\<lparr>dos := [[]], doneCh_closed := False\<rparr>"

text \<open>
  \<^verbatim>\<open>Reset\<close>: closing \<^verbatim>\<open>queueCh\<close> ends the running \<^verbatim>\<open>spin\<close> (if it has not ended),
  the registry is replaced by an empty map, the three channels by new ones, and a new
  \<^verbatim>\<open>spin\<close> is started.
\<close>

definition Reset :: "state \<Rightarrow> state" where
  "Reset st = spin_start (st\<lparr>reg_m := Map.empty\<rparr>)"

text \<open>Measure for the drain loop: the number of actions still held in the queue.\<close>

fun weight :: "act \<Rightarrow> nat" where
  "weight (Emit n) = 1"
| "weight (DoCall g) = Suc (sum_list (map weight g))"

definition cweight :: "callback \<Rightarrow> nat" where
  "cweight g = Suc (sum_list (map weight g))"

fun regs :: "callback \<Rightarrow> callback list" where
  "regs [] = []"
| "regs (Emit n # as) = regs as"
| "regs (DoCall g # as) = g # regs as"

lemma run_doneCh_closed [simp]: "doneCh_closed (run fn st) = doneCh_closed st"
  by (induction fn st rule: run.induct) auto

lemma run_open_dos: "\<not> doneCh_closed st \<Longrightarrow> dos (run fn st) = dos st @ regs fn"
  by (induction fn st rule: run.induct) auto

lemma regs_weight: "sum_list (map cweight (regs fn)) \<le> sum_list (map weight fn)"
  by (induction fn rule: regs.induct) (auto simp: cweight_def)

text \<open>
  The loop \<^verbatim>\<open>for fn := range callCh { fn() }\<close> of \<^verbatim>\<open>Parse\<close> against \<^verbatim>\<open>spin\<close>: each
  receive takes \<^verbatim>\<open>dos[0]\<close>; \<^verbatim>\<open>spin\<close> drops it from its queue and, when the queue is
  empty then, leaves its loop and closes \<^verbatim>\<open>doneCh\<close> and \<^verbatim>\<open>callCh\<close>; then \<^verbatim>\<open>Parse\<close>
  calls the function it received. The range loop ends when \<^verbatim>\<open>callCh\<close> is closed.
  (Once \<^verbatim>\<open>spin\<close> has left its loop nothing receives on \<^verbatim>\<open>queueCh\<close>, so a \<^verbatim>\<open>Do\<close>
  called by that function can only proceed with \<^verbatim>\<open><-doneCh\<close>, whether the close has
  happened yet or not: for the caller the channels are closed from the hand-over on.)
\<close>

function drain :: "state \<Rightarrow> state" where
  "drain st =
     (if doneCh_closed st then st
      else case dos st of
        [] \<Rightarrow> st\<lparr>doneCh_closed := True\<rparr>
      | fn # rest \<Rightarrow> drain (run fn (st\<lparr>dos := rest, doneCh_closed := (rest = [])\<rparr>)))"
  by pat_completeness auto
termination
proof (relation "measure (\<lambda>st. if doneCh_closed st then 0
                                 else Suc (sum_list (map cweight (dos st))))")
  fix st :: state and fn rest
  assume open_st: "\<not> doneCh_closed st" and q: "dos st = fn # rest"
  let ?st' = "st\<lparr>dos := rest, doneCh_closed := (rest = [])\<rparr>"
  show "(run fn ?st', st)
        \<in> measure (\<lambda>st. if doneCh_closed st then 0
                          else Suc (sum_list (map cweight (dos st))))"
  proof (cases "rest = []")
    case True
    then show ?thesis using open_st by simp
  next
    case False
    then have "dos (run fn ?st') = rest @ regs fn"
      by (simp add: run_open_dos)
    moreover have "sum_list (map cweight (regs fn)) < cweight fn"
      using regs_weight [of fn] by (simp add: cweight_def)
    ultimately show ?thesis using open_st q False by simp
  qed
qed simp

declare drain.simps [simp del]

section \<open>Sources\<close>

text \<open>
  \<^verbatim>\<open>Source.Parse([]Param) (map[string]string, error)\<close>. A source is modelled by what
  one call of its \<^verbatim>\<open>Parse\<close> gives for the slice it is passed.
\<close>

type_synonym Source = "Param list \<Rightarrow> fault + smap"

definition SourceStub :: "smap \<Rightarrow> Source" where
  "SourceStub ss = (\<lambda>pp. Inr ss)"

text \<open>\<^verbatim>\<open>Sources.Parse\<close>: \<open>vals\<close> accumulates; \<^verbatim>\<open>vals[k] = v\<close> for each entry of \<open>sm\<close>.\<close>

fun Sources_loop :: "Source list \<Rightarrow> Param list \<Rightarrow> smap \<Rightarrow> fault + smap" where
  "Sources_loop [] pp vals = Inr vals"
| "Sources_loop (s # ss) pp vals =
     (case s pp of
        Inl err \<Rightarrow> Inl err
      | Inr sm \<Rightarrow> Sources_loop ss pp (vals ++ sm))"

definition Sources_Parse :: "Source list \<Rightarrow> Source" where
  "Sources_Parse ss = (\<lambda>pp. Sources_loop ss pp Map.empty)"

subsection \<open>Strings\<close>

text \<open>\<^verbatim>\<open>strings.SplitN(s, "=", 2)\<close>: the part before the first "=", and the rest if there is one.\<close>

definition SplitN2 :: "string \<Rightarrow> string \<times> string option" where
  "SplitN2 s =
     (if CHR ''='' \<in> set s
      then (takeWhile (\<lambda>c. c \<noteq> CHR ''='') s, Some (tl (dropWhile (\<lambda>c. c \<noteq> CHR ''='') s)))
      else (s, None))"

text \<open>\<^verbatim>\<open>strings.HasPrefix(s, "-")\<close>\<close>

definition HasPrefix_dash :: "string \<Rightarrow> bool" where
  "HasPrefix_dash s = (case s of [] \<Rightarrow> False | c # _ \<Rightarrow> c = CHR ''-'')"

definition nl :: string where "nl = [CHR 0x0A]"
definition tab :: string where "tab = [CHR 0x09]"

subsection \<open>Environment source\<close>

definition envName :: "golib \<Rightarrow> string \<Rightarrow> string" where
  "envName lib name = map (\<lambda>c. if c = CHR ''-'' then CHR ''_'' else c) (ToUpper lib name)"

definition envM :: "golib \<Rightarrow> Param list \<Rightarrow> string \<rightharpoonup> Param" where
  "envM lib pp = fold (\<lambda>p em. em(envName lib (Name p) \<mapsto> p)) pp Map.empty"

fun parseEnv_loop :: "golib \<Rightarrow> (string \<rightharpoonup> Param) \<Rightarrow> string list \<Rightarrow> smap \<Rightarrow> fault + smap" where
  "parseEnv_loop lib em [] ret = Inr ret"
| "parseEnv_loop lib em (e # ee) ret =
     (case SplitN2 e of
        (_, None) \<Rightarrow> Inl (Error (''malformed environment variable: '' @ Quote lib e))
      | (k, Some v) \<Rightarrow>
          (case em k of
             Some p \<Rightarrow> parseEnv_loop lib em ee (ret(Name p \<mapsto> v))
           | None \<Rightarrow> parseEnv_loop lib em ee ret))"

definition parseEnv :: "golib \<Rightarrow> string list \<Rightarrow> Source" where
  "parseEnv lib ee = (\<lambda>pp. parseEnv_loop lib (envM lib pp) ee Map.empty)"

subsection \<open>Command-line source\<close>

text \<open>The package variables read by the help and version texts.\<close>

record globals =
  HelpPrefix :: string
  BuildCommit :: string
  BuildDate :: string
  BuildNumber :: string
  BuildGoVersion :: string

definition orStr :: "string \<Rightarrow> string \<Rightarrow> string" where
  "orStr s alt = (if s = [] then alt else s)"

definition Version :: "globals \<Rightarrow> string" where
  "Version g =
     ''BuildCommit: '' @ orStr (BuildCommit g) ''<unset>'' @ nl @
     ''BuildDate: '' @ orStr (BuildDate g) ''<unset>'' @ nl @
     ''BuildNumber: '' @ orStr (BuildNumber g) ''<unset>'' @ nl @
     ''BuildGoVersion: '' @ orStr (BuildGoVersion g) ''<unset>'' @ nl"

definition bufParam :: "golib \<Rightarrow> Param \<Rightarrow> string" where
  "bufParam lib p =
     tab @ ''--'' @ Name p @ (if ParamType p = ParamTypeBool then '' (flag)'' else []) @ nl @
     (if Usage p \<noteq> [] then tab @ tab @ Usage p @ nl else []) @
     (if Default p \<noteq> [] then tab @ tab @ ''Default: '' @ Quote lib (Default p) @ nl
      else if Required p then tab @ tab @ ''(Required)'' @ nl
      else tab @ tab @ ''(Optional)'' @ nl) @
     nl"

text \<open>
  \<^verbatim>\<open>cliHelpStr\<close> sorts the slice it is given in place, by name, and renders it; the model
  returns the slice after the call together with the text. (\<^verbatim>\<open>sort.Slice\<close> does not
  promise stability; the order of parameters of equal name is taken to be kept.)
\<close>

definition cliHelpStr :: "golib \<Rightarrow> globals \<Rightarrow> Param list \<Rightarrow> Param list \<times> string" where
  "cliHelpStr lib g pp =
     (let pp' = sort_key Name pp in
      (pp',
       (if HelpPrefix g \<noteq> []
        then nl @ HelpPrefix g @ (if last (HelpPrefix g) \<noteq> CHR 0x0A then nl else [])
        else []) @
       nl @
       concat (map (bufParam lib) pp') @
       bufParam lib \<lparr>ParamType = ParamTypeBool, Name = ''help'', Default = [],
                     Usage = ''Show this help message and exit'', Required = False\<rparr> @
       bufParam lib \<lparr>ParamType = ParamTypeBool, Name = ''version'', Default = [],
                     Usage = ''Print out a build string and exit'', Required = False\<rparr>))"

definition cliM :: "Param list \<Rightarrow> string \<rightharpoonup> Param" where
  "cliM pp = fold (\<lambda>p cm. cm(''--'' @ Name p \<mapsto> p)) pp Map.empty"

text \<open>
  For a boolean parameter without \<^verbatim>\<open>=value\<close>: the next argument is taken as the value
  when there is one and it does not start with "-".
\<close>

definition boolVal :: "string option \<Rightarrow> string list \<Rightarrow> string option \<times> string list" where
  "boolVal argVal args =
     (case argVal of
        Some v \<Rightarrow> (Some v, args)
      | None \<Rightarrow>
          (case args of
             [] \<Rightarrow> (None, args)
           | a # rest \<Rightarrow> if \<not> HasPrefix_dash a then (Some a, rest) else (None, args)))"

text \<open>For any other parameter without \<^verbatim>\<open>=value\<close>: the next argument, if there is one.\<close>

definition otherVal :: "string option \<Rightarrow> string list \<Rightarrow> string \<times> string list" where
  "otherVal argVal args =
     (case argVal of
        Some v \<Rightarrow> (v, args)
      | None \<Rightarrow> (case args of [] \<Rightarrow> ([], args) | a # rest \<Rightarrow> (a, rest)))"

lemma boolVal_length: "length (snd (boolVal argVal args)) \<le> length args"
  by (auto simp: boolVal_def split: option.splits list.splits)

lemma otherVal_length: "length (snd (otherVal argVal args)) \<le> length args"
  by (auto simp: otherVal_def split: option.splits list.splits)

text \<open>
  The loop of \<^verbatim>\<open>parseCLI\<close>. The result is the slice \<open>pp\<close> as the call leaves it, and
  the map found or the way the call ended; \<^verbatim>\<open>printfAndExit\<close> ends the process with the
  text it was given.
\<close>

function parseCLI_loop ::
  "golib \<Rightarrow> globals \<Rightarrow> (string \<rightharpoonup> Param) \<Rightarrow> Param list \<Rightarrow> string list \<Rightarrow> smap
     \<Rightarrow> Param list \<times> (fault + smap)" where
  "parseCLI_loop lib g cm pp [] found = (pp, Inr found)"
| "parseCLI_loop lib g cm pp (arg # args) found =
     (let argName = fst (SplitN2 arg); argVal = snd (SplitN2 arg) in
      if argName = ''-h'' \<or> argName = ''--help''
      then (fst (cliHelpStr lib g pp), Inl (Exit (snd (cliHelpStr lib g pp))))
      else if argName = ''-V'' \<or> argName = ''--version''
      then (pp, Inl (Exit (Version g)))
      else
        (case cm argName of
           None \<Rightarrow> parseCLI_loop lib g cm pp args found
         | Some p \<Rightarrow>
             if ParamType p = ParamTypeBool
             then
               parseCLI_loop lib g cm pp (snd (boolVal argVal args))
                 (found(Name p \<mapsto>
                    (case fst (boolVal argVal args) of
                       Some v \<Rightarrow> v
                     | None \<Rightarrow> if Default p = ''true'' then [] else ''true'')))
             else
               parseCLI_loop lib g cm pp (snd (otherVal argVal args))
                 (found(Name p \<mapsto> fst (otherVal argVal args)))))"
  by pat_completeness auto
termination
  by (relation "measure (\<lambda>(lib, g, cm, pp, args, found). length args)")
     (auto simp: less_Suc_eq_le boolVal_length otherVal_length)

definition parseCLI :: "golib \<Rightarrow> globals \<Rightarrow> string list \<Rightarrow> Param list \<Rightarrow> Param list \<times> (fault + smap)" where
  "parseCLI lib g args pp = parseCLI_loop lib g (cliM pp) pp args Map.empty"

definition sourceCLI :: "golib \<Rightarrow> globals \<Rightarrow> string list \<Rightarrow> Source" where
  "sourceCLI lib g args = (\<lambda>pp. snd (parseCLI lib g args pp))"

subsection \<open>JSON-file source\<close>

text \<open>\<^verbatim>\<open>type JSONStringFunc func(json.RawMessage) (string, error)\<close>\<close>

type_synonym JSONStringFunc = "string \<Rightarrow> fault + string"

definition JSONStringAsIs :: JSONStringFunc where
  "JSONStringAsIs j = Inr j"

definition JSONStringUnmarshal :: "golib \<Rightarrow> JSONStringFunc" where
  "JSONStringUnmarshal lib j =
     (case UnmarshalString lib j of Inl err \<Rightarrow> Inl (Error err) | Inr str \<Rightarrow> Inr str)"

text \<open>The initial content of the table \<^verbatim>\<open>paramTypeJSONStringers\<close>.\<close>

definition paramTypeJSONStringers :: "golib \<Rightarrow> string \<rightharpoonup> JSONStringFunc" where
  "paramTypeJSONStringers lib =
     [ParamTypeString \<mapsto> JSONStringUnmarshal lib,
      ParamTypeInt \<mapsto> JSONStringAsIs,
      ParamTypeBool \<mapsto> JSONStringAsIs,
      ParamTypeDuration \<mapsto> JSONStringUnmarshal lib,
      ParamTypeJSON \<mapsto> JSONStringAsIs]"

text \<open>
  \<^verbatim>\<open>type sourceJSON struct { innerSrc Source; testJSONFile io.Reader }\<close>. The reader is
  kept as what decoding it gives: an error message or the decoded document, a map from
  key to the raw JSON text of the value. \<open>None\<close> is the nil reader.
\<close>

record sourceJSON =
  innerSrc :: Source
  testJSONFile :: "(string + smap) option"

definition paramName :: string where
  "paramName = ''config-json-file''"

definition configParam :: Param where
  "configParam =
     \<lparr>ParamType = ParamTypeString, Name = paramName, Default = [],
      Usage = ''Name of json file to parse config object out of. Environment and CLI params overwrite json ones'',
      Required = False\<rparr>"

text \<open>The loop that turns the decoded document into a map of raw strings.\<close>

fun jsonOut_loop ::
  "golib \<Rightarrow> (string \<rightharpoonup> JSONStringFunc) \<Rightarrow> smap \<Rightarrow> Param list \<Rightarrow> smap \<Rightarrow> fault + smap" where
  "jsonOut_loop lib strs jm [] out = Inr out"
| "jsonOut_loop lib strs jm (p # pp) out =
     (case jm (ToLower lib (Name p)) of
        None \<Rightarrow> jsonOut_loop lib strs jm pp out
      | Some j \<Rightarrow>
          if j = ''null'' then jsonOut_loop lib strs jm pp out
          else
            (case strs (ParamType p) of
               None \<Rightarrow> Inl PanicRuntime
             | Some f \<Rightarrow>
                 (case f j of
                    Inl err \<Rightarrow> Inl err
                  | Inr str \<Rightarrow> jsonOut_loop lib strs jm pp (out(Name p \<mapsto> str)))))"

text \<open>
  The decoder \<^verbatim>\<open>sourceJSON.Parse\<close> chooses, as what decoding with it gives: the file
  named by the inner source's value of \<^verbatim>\<open>config-json-file\<close> when that is not empty,
  else the test reader when there is one, else none. \<open>fs\<close> stands for opening the
  named file and decoding it (\<^verbatim>\<open>os.Open\<close>, \<^verbatim>\<open>Decode\<close>): an error message or the
  decoded document.
\<close>

definition jsonDecoder ::
  "(string \<Rightarrow> string + smap) \<Rightarrow> sourceJSON \<Rightarrow> smap \<Rightarrow> (string + smap) option" where
  "jsonDecoder fs sj m =
     (let jsonConfigFile = (case m paramName of Some f \<Rightarrow> f | None \<Rightarrow> []) in
      if jsonConfigFile \<noteq> [] then Some (fs jsonConfigFile) else testJSONFile sj)"

text \<open>\<^verbatim>\<open>sourceJSON.Parse\<close>\<close>

definition sourceJSON_Parse ::
  "golib \<Rightarrow> (string \<rightharpoonup> JSONStringFunc) \<Rightarrow> (string \<Rightarrow> string + smap) \<Rightarrow> sourceJSON \<Rightarrow> Source" where
  "sourceJSON_Parse lib strs fs sj = (\<lambda>pp0.
     (let pp = pp0 @ [configParam] in
      case innerSrc sj pp of
        Inl err \<Rightarrow> Inl err
      | Inr m \<Rightarrow>
          (case jsonDecoder fs sj m of
             None \<Rightarrow> Inr m
           | Some (Inl err) \<Rightarrow> Inl (Error err)
           | Some (Inr jm) \<Rightarrow>
               (case jsonOut_loop lib strs jm pp Map.empty of
                  Inl err \<Rightarrow> Inl err
                | Inr out \<Rightarrow> Inr (out ++ m)))))"

section \<open>Resolution\<close>

text \<open>
  \<^verbatim>\<open>for _, p := range m { pp = append(pp, p.Param) }\<close>: Go leaves the order of the
  iteration open; \<open>ns\<close> is the order in which the names come.
\<close>

definition snapshot :: "string list \<Rightarrow> registry \<Rightarrow> Param list" where
  "snapshot ns m = List.map_filter (\<lambda>n. map_option decl (m n)) ns"

text \<open>
  \<^verbatim>\<open>paramTypeParsers[p.ParamType](val, m[p.Name].ptr)\<close> and the check of its error.
  A missing table entry is a nil function and a missing registry entry a nil pointer:
  both end in a runtime panic.
\<close>

definition convert ::
  "(string \<rightharpoonup> ParseFunc) \<Rightarrow> registry \<Rightarrow> Param \<Rightarrow> string \<Rightarrow> heap \<Rightarrow> fault + heap" where
  "convert P m p val h =
     (case P (ParamType p) of
        None \<Rightarrow> Inl PanicRuntime
      | Some f \<Rightarrow>
          (case m (Name p) of
             None \<Rightarrow> Inl PanicRuntime
           | Some e \<Rightarrow>
               (case h (ptr e) of
                  None \<Rightarrow> Inl PanicRuntime
                | Some slot \<Rightarrow>
                    (case f val slot of
                       Inl (Error err) \<Rightarrow> Inl (PanicParse (Name p) err)
                     | Inl flt \<Rightarrow> Inl flt
                     | Inr slot' \<Rightarrow> Inr (h(ptr e \<mapsto> slot'))))))"

fun resolve_loop ::
  "(string \<rightharpoonup> ParseFunc) \<Rightarrow> smap \<Rightarrow> registry \<Rightarrow> Param list \<Rightarrow> heap \<Rightarrow> fault + heap" where
  "resolve_loop P vals m [] h = Inr h"
| "resolve_loop P vals m (p # pp) h =
     (if vals (Name p) = None \<and> Required p then Inl (PanicRequired (Name p))
      else
        (case convert P m p (case vals (Name p) of Some val \<Rightarrow> val | None \<Rightarrow> Default p) h of
           Inl flt \<Rightarrow> Inl flt
         | Inr h' \<Rightarrow> resolve_loop P vals m pp h'))"

text \<open>
  \<^verbatim>\<open>Parse\<close>: snapshot, source, the loop over the parameters, the drain of the queue,
  and the registry replaced by an empty map. \<open>P\<close> is the table \<^verbatim>\<open>paramTypeParsers\<close>
  at the time of the call.
\<close>

definition Parse :: "(string \<rightharpoonup> ParseFunc) \<Rightarrow> Source \<Rightarrow> string list \<Rightarrow> state \<Rightarrow> fault + state" where
  "Parse P s ns st =
     (let pp = snapshot ns (reg_m st) in
      case s pp of
        Inl (Error err) \<Rightarrow> Inl (PanicError err)
      | Inl flt \<Rightarrow> Inl flt
      | Inr vals \<Rightarrow>
          (case resolve_loop P vals (reg_m st) pp (slots st) of
             Inl flt \<Rightarrow> Inl flt
           | Inr h \<Rightarrow> Inr ((drain (st\<lparr>slots := h\<rparr>))\<lparr>reg_m := Map.empty\<rparr>)))"

text \<open>
  \<^verbatim>\<open>Configure\<close>: environment, then command line, under the JSON-file source.
  \<open>ee\<close> is \<^verbatim>\<open>os.Environ()\<close> and \<open>args\<close> is \<^verbatim>\<open>os.Args[1:]\<close>.
\<close>

definition Configure ::
  "golib \<Rightarrow> globals \<Rightarrow> (string \<Rightarrow> string + smap) \<Rightarrow> string list \<Rightarrow> string list
     \<Rightarrow> (string \<rightharpoonup> ParseFunc) \<Rightarrow> string list \<Rightarrow> state \<Rightarrow> fault + state" where
  "Configure lib g fs ee args P ns st =
     Parse P
       (sourceJSON_Parse lib (paramTypeJSONStringers lib) fs
          \<lparr>innerSrc = Sources_Parse [parseEnv lib ee, sourceCLI lib g args],
           testJSONFile = None\<rparr>)
       ns st"

section \<open>Invariants and instances used in the statements\<close>

text \<open>
  \<^verbatim>\<open>newParam\<close> stores every entry under the name of its declaration.
\<close>

definition registry_ok :: "registry \<Rightarrow> bool" where
  "registry_ok m \<longleftrightarrow> (\<forall>n e. m n = Some e \<longrightarrow> Name (decl e) = n)"

text \<open>\<^verbatim>\<open>strings.ToLower\<close> and \<^verbatim>\<open>strings.ToUpper\<close> on ASCII text.\<close>

definition asciiLower :: "string \<Rightarrow> string" where
  "asciiLower s =
     map (\<lambda>c. if CHR ''A'' \<le> c \<and> c \<le> CHR ''Z''
               then (case c of Char b0 b1 b2 b3 b4 b5 b6 b7 \<Rightarrow> Char b0 b1 b2 b3 b4 True b6 b7)
               else c) s"

definition asciiUpper :: "string \<Rightarrow> string" where
  "asciiUpper s =
     map (\<lambda>c. if CHR ''a'' \<le> c \<and> c \<le> CHR ''z''
               then (case c of Char b0 b1 b2 b3 b4 b5 b6 b7 \<Rightarrow> Char b0 b1 b2 b3 b4 False b6 b7)
               else c) s"

section \<open>Properties\<close>

subsection \<open>Boolean conversion\<close>

lemma parseParamTypeBool_SBool:
  "parseParamTypeBool val (SBool b) = Inr (SBool (val \<noteq> [] \<and> val \<noteq> ''false''))"
  by (simp add: parseParamTypeBool_def)

text \<open>
  C2. The claim is that the boolean conversion gives true for the raw value "true" only.
  The conversion of the code gives true for every raw value other than the empty string
  and "false": on "anything-else" the slot is set to true.
\<close>

theorem parseParamTypeBool_anything_else:
  "parseParamTypeBool ''anything-else'' (SBool False) = Inr (SBool True)"
  by (simp add: parseParamTypeBool_def)

subsection \<open>Declaration\<close>



subsection \<open>Scheduler\<close>

text \<open>
  The drain always ends with the channels closed, so a callback registered after
  \<^verbatim>\<open>Parse\<close> has returned runs at once, inside the call of \<^verbatim>\<open>Do\<close>.
\<close>

lemma drain_closed: "doneCh_closed (drain st)"
proof (induction st rule: drain.induct)
  case (1 st)
  show ?case
  proof (cases "doneCh_closed st")
    case True
    then show ?thesis by (simp add: drain.simps [of st])
  next
    case False
    show ?thesis
    proof (cases "dos st")
      case Nil
      then show ?thesis using False by (simp add: drain.simps [of st])
    next
      case (Cons fn rest)
      then show ?thesis using False "1.IH" [OF False Cons] by (simp add: drain.simps [of st])
    qed
  qed
qed

lemma Do_after_Parse:
  "Parse P s ns st = Inr st' \<Longrightarrow> Do fn st' = run fn st'"
  by (auto simp: Parse_def Let_def Do_def drain_closed split: sum.splits fault.splits)

text \<open>
  C1. The claim is that a callback registered from inside a running callback is put at
  the end of the queue and not executed inline. In the code \<^verbatim>\<open>spin\<close> leaves its loop
  and closes \<^verbatim>\<open>doneCh\<close> as soon as it has handed out the last queued callback, before
  that callback has run. So after \<^verbatim>\<open>Reset(); Do(A); Parse(SourceStub{})\<close>, where
  \<open>A\<close> takes step 10, calls \<^verbatim>\<open>Do(B)\<close> and takes step 11, and \<open>B\<close> takes step 20, the
  steps come in the order 10, 20, 11: \<open>B\<close> has run inside \<open>A\<close>. With one more callback
  queued behind \<open>A\<close> (step 30), \<open>B\<close> is put behind it and runs last.
\<close>

theorem Do_inside_last_callback_runs_inline:
  "map_sum id trace
     (Parse P (SourceStub Map.empty) []
        (Do [Emit 10, DoCall [Emit 20], Emit 11] (Reset st)))
   = Inr (trace st @ [10, 20, 11]) \<and>
   map_sum id trace
     (Parse P (SourceStub Map.empty) []
        (Do [Emit 30] (Do [Emit 10, DoCall [Emit 20], Emit 11] (Reset st))))
   = Inr (trace st @ [10, 11, 30, 20])"
  by (simp add: Parse_def SourceStub_def snapshot_def List.map_filter_def Do_def Reset_def
      spin_start_def drain.simps)

text \<open>
  C8. After \<^verbatim>\<open>Reset\<close> the registry is empty (a snapshot of it holds no parameter), the
  scheduler is open again and its queue holds nothing but the empty seed function. A
  call of \<^verbatim>\<open>Do\<close> then puts the callback on the queue and runs nothing, and the drain
  of the next \<^verbatim>\<open>Parse\<close> runs it; on the closed scheduler before the reset the same
  call of \<^verbatim>\<open>Do\<close> runs the callback inline.
\<close>

theorem Reset_clean:
  "reg_m (Reset st) = Map.empty \<and>
   snapshot ns (reg_m (Reset st)) = [] \<and>
   \<not> doneCh_closed (Reset st) \<and>
   dos (Reset st) = [[]] \<and>
   Do fn (Reset st) = (Reset st)\<lparr>dos := [[], fn]\<rparr> \<and>
   trace (Do fn (Reset st)) = trace st \<and>
   drain (Do fn (Reset st)) = run fn ((Reset st)\<lparr>dos := [], doneCh_closed := True\<rparr>) \<and>
   (doneCh_closed st \<longrightarrow> Do fn st = run fn st)"
  by (simp add: Reset_def spin_start_def Do_def snapshot_def List.map_filter_def drain.simps)

theorem Reset_clean_witness:
  "Do [Emit 1] \<lparr>reg_m = Map.empty, slots = Map.empty, dos = [], doneCh_closed = True, trace = []\<rparr>
     = \<lparr>reg_m = Map.empty, slots = Map.empty, dos = [], doneCh_closed = True, trace = [1]\<rparr> \<and>
   Do [Emit 1]
     (Reset \<lparr>reg_m = Map.empty, slots = Map.empty, dos = [], doneCh_closed = True, trace = []\<rparr>)
     = \<lparr>reg_m = Map.empty, slots = Map.empty, dos = [[], [Emit 1]], doneCh_closed = False,
        trace = []\<rparr>"
  using Reset_clean
    [where st = "\<lparr>reg_m = Map.empty, slots = Map.empty, dos = [], doneCh_closed = True, trace = []\<rparr>"
       and fn = "[Emit 1]"]
  by (simp add: Reset_def spin_start_def)

subsection \<open>Command-line source\<close>

text \<open>
  C6. For an argument whose name is the flag of a boolean parameter: a value after "="
  is stored as it is; without one, a next argument that does not start with "-" is
  consumed and stored as it is; otherwise (no next argument, or one that starts with
  "-", which is left in place) the value stored is "true", unless the parameter's
  default is "true", and then it is the empty string, which the boolean conversion
  reads as false.
\<close>

theorem parseCLI_bool_flag:
  assumes "SplitN2 arg = (argName, argVal)"
      and "argName \<notin> {''-h'', ''--help'', ''-V'', ''--version''}"
      and "cm argName = Some p"
      and "ParamType p = ParamTypeBool"
  shows "(argVal = Some v \<longrightarrow>
            parseCLI_loop lib g cm pp (arg # args) found
              = parseCLI_loop lib g cm pp args (found(Name p \<mapsto> v))) \<and>
         (argVal = None \<and> args = a # rest \<and> \<not> HasPrefix_dash a \<longrightarrow>
            parseCLI_loop lib g cm pp (arg # args) found
              = parseCLI_loop lib g cm pp rest (found(Name p \<mapsto> a))) \<and>
         (argVal = None \<and> (args = [] \<or> (\<exists>a rest. args = a # rest \<and> HasPrefix_dash a)) \<longrightarrow>
            parseCLI_loop lib g cm pp (arg # args) found
              = parseCLI_loop lib g cm pp args
                  (found(Name p \<mapsto> (if Default p = ''true'' then [] else ''true''))) \<and>
            parseParamTypeBool (if Default p = ''true'' then [] else ''true'') (SBool b)
              = Inr (SBool (Default p \<noteq> ''true'')))"
  using assms
  by (auto simp: boolVal_def parseParamTypeBool_def Let_def)

theorem parseCLI_bool_flag_witness:
  "\<forall>lib g.
     snd (parseCLI lib g [''--flag1'', ''--flag2'', ''false'', ''--flag3'', ''--flag4=off'']
       [\<lparr>ParamType = ''bool'', Name = ''flag1'', Default = [], Usage = [], Required = False\<rparr>,
        \<lparr>ParamType = ''bool'', Name = ''flag2'', Default = [], Usage = [], Required = False\<rparr>,
        \<lparr>ParamType = ''bool'', Name = ''flag3'', Default = ''true'', Usage = [], Required = False\<rparr>,
        \<lparr>ParamType = ''bool'', Name = ''flag4'', Default = [], Usage = [], Required = False\<rparr>])
     = Inr [''flag1'' \<mapsto> ''true'', ''flag2'' \<mapsto> ''false'', ''flag3'' \<mapsto> [],
            ''flag4'' \<mapsto> ''off'']"
proof (intro allI)
  fix lib :: golib and g :: globals
  let ?f1 = "\<lparr>ParamType = ''bool'', Name = ''flag1'', Default = [], Usage = [], Required = False\<rparr>"
  let ?f2 = "\<lparr>ParamType = ''bool'', Name = ''flag2'', Default = [], Usage = [], Required = False\<rparr>"
  let ?f3 = "\<lparr>ParamType = ''bool'', Name = ''flag3'', Default = ''true'', Usage = [], Required = False\<rparr>"
  let ?f4 = "\<lparr>ParamType = ''bool'', Name = ''flag4'', Default = [], Usage = [], Required = False\<rparr>"
  let ?pp = "[?f1, ?f2, ?f3, ?f4]"
  let ?cm = "cliM ?pp"
  have cm: "?cm ''--flag1'' = Some ?f1" "?cm ''--flag2'' = Some ?f2"
           "?cm ''--flag3'' = Some ?f3" "?cm ''--flag4'' = Some ?f4"
    by (simp_all add: cliM_def)
  have split: "SplitN2 ''--flag1'' = (''--flag1'', None)" "SplitN2 ''--flag2'' = (''--flag2'', None)"
              "SplitN2 ''--flag3'' = (''--flag3'', None)"
              "SplitN2 ''--flag4=off'' = (''--flag4'', Some ''off'')"
    by (simp_all add: SplitN2_def)
  have dash: "HasPrefix_dash ''--flag2''" "\<not> HasPrefix_dash ''false''" "HasPrefix_dash ''--flag4=off''"
    by (simp_all add: HasPrefix_dash_def)
  have s1: "parseCLI_loop lib g ?cm ?pp
              [''--flag1'', ''--flag2'', ''false'', ''--flag3'', ''--flag4=off''] Map.empty
            = parseCLI_loop lib g ?cm ?pp [''--flag2'', ''false'', ''--flag3'', ''--flag4=off'']
                [''flag1'' \<mapsto> ''true'']"
    using parseCLI_bool_flag [where arg = "''--flag1''" and argName = "''--flag1''" and argVal = None and cm = ?cm
        and p = ?f1 and lib = lib and g = g and pp = ?pp
        and args = "[''--flag2'', ''false'', ''--flag3'', ''--flag4=off'']" and found = Map.empty]
      split cm dash
    by (simp add: ParamTypeBool_def)
  have s2: "parseCLI_loop lib g ?cm ?pp [''--flag2'', ''false'', ''--flag3'', ''--flag4=off'']
                [''flag1'' \<mapsto> ''true'']
            = parseCLI_loop lib g ?cm ?pp [''--flag3'', ''--flag4=off'']
                [''flag1'' \<mapsto> ''true'', ''flag2'' \<mapsto> ''false'']"
    using parseCLI_bool_flag [where arg = "''--flag2''" and argName = "''--flag2''" and argVal = None and cm = ?cm
        and p = ?f2 and lib = lib and g = g and pp = ?pp
        and args = "[''false'', ''--flag3'', ''--flag4=off'']" and a = "''false''"
        and rest = "[''--flag3'', ''--flag4=off'']" and found = "[''flag1'' \<mapsto> ''true'']"]
      split cm dash
    by (simp add: ParamTypeBool_def)
  have s3: "parseCLI_loop lib g ?cm ?pp [''--flag3'', ''--flag4=off'']
                [''flag1'' \<mapsto> ''true'', ''flag2'' \<mapsto> ''false'']
            = parseCLI_loop lib g ?cm ?pp [''--flag4=off'']
                [''flag1'' \<mapsto> ''true'', ''flag2'' \<mapsto> ''false'', ''flag3'' \<mapsto> []]"
    using parseCLI_bool_flag [where arg = "''--flag3''" and argName = "''--flag3''" and argVal = None and cm = ?cm
        and p = ?f3 and lib = lib and g = g and pp = ?pp
        and args = "[''--flag4=off'']"
        and found = "[''flag1'' \<mapsto> ''true'', ''flag2'' \<mapsto> ''false'']"]
      split cm dash
    by (simp add: ParamTypeBool_def)
  have s4: "parseCLI_loop lib g ?cm ?pp [''--flag4=off'']
                [''flag1'' \<mapsto> ''true'', ''flag2'' \<mapsto> ''false'', ''flag3'' \<mapsto> []]
            = parseCLI_loop lib g ?cm ?pp []
                [''flag1'' \<mapsto> ''true'', ''flag2'' \<mapsto> ''false'', ''flag3'' \<mapsto> [],
                 ''flag4'' \<mapsto> ''off'']"
    using parseCLI_bool_flag [where arg = "''--flag4=off''" and argName = "''--flag4''" and argVal = "Some ''off''" and cm = ?cm
        and p = ?f4 and lib = lib and g = g and pp = ?pp
        and args = "[]" and v = "''off''"
        and found = "[''flag1'' \<mapsto> ''true'', ''flag2'' \<mapsto> ''false'', ''flag3'' \<mapsto> []]"]
      split cm
    by (simp add: ParamTypeBool_def)
  show "snd (parseCLI lib g [''--flag1'', ''--flag2'', ''false'', ''--flag3'', ''--flag4=off''] ?pp)
     = Inr [''flag1'' \<mapsto> ''true'', ''flag2'' \<mapsto> ''false'', ''flag3'' \<mapsto> [],
            ''flag4'' \<mapsto> ''off'']"
    unfolding parseCLI_def s1 s2 s3 s4 by simp
qed

text \<open>
  On every path on which \<^verbatim>\<open>parseCLI\<close> returns, and on the version exit, the slice is
  as it was; only the help exit leaves it sorted.
\<close>

lemma parseCLI_loop_slice:
  "parseCLI_loop lib g cm pp args found = (pp', r) \<Longrightarrow>
     pp' = pp \<or> (pp' = fst (cliHelpStr lib g pp) \<and> r = Inl (Exit (snd (cliHelpStr lib g pp))))"
  by (induction lib g cm pp args found rule: parseCLI_loop.induct)
     (auto simp: Let_def split: if_splits option.splits)

text \<open>
  C9. The claim is that the \<^verbatim>\<open>Parse\<close> of every shipped source leaves the slice it is
  passed unchanged. On \<^verbatim>\<open>--help\<close> the command-line source calls \<^verbatim>\<open>cliHelpStr\<close>,
  which sorts the caller's slice in place before the text is printed and the process
  ends: the slice holding the parameters "b", "a" holds "a", "b" afterwards.
\<close>

theorem parseCLI_help_sorts_slice:
  "fst (parseCLI lib g [''--help'']
     [\<lparr>ParamType = ''string'', Name = ''b'', Default = [], Usage = [], Required = False\<rparr>,
      \<lparr>ParamType = ''string'', Name = ''a'', Default = [], Usage = [], Required = False\<rparr>])
   = [\<lparr>ParamType = ''string'', Name = ''a'', Default = [], Usage = [], Required = False\<rparr>,
      \<lparr>ParamType = ''string'', Name = ''b'', Default = [], Usage = [], Required = False\<rparr>]"
  by (simp add: parseCLI_def SplitN2_def cliHelpStr_def Let_def)

subsection \<open>Environment source\<close>

text \<open>An entry \<^verbatim>\<open>KEY=value\<close> of the environment gives the parameter of that key the
  value after the first "=", the empty string included.\<close>

lemma SplitN2_entry: "CHR ''='' \<notin> set k \<Longrightarrow> SplitN2 (k @ ''='' @ v) = (k, Some v)"
  by (induction k) (auto simp: SplitN2_def)

lemma parseEnv_loop_entry:
  "CHR ''='' \<notin> set k \<Longrightarrow> em k = Some p \<Longrightarrow>
     parseEnv_loop lib em ((k @ ''='' @ v) # ee) ret = parseEnv_loop lib em ee (ret(Name p \<mapsto> v))"
  using SplitN2_entry [of k v] by simp

subsection \<open>JSON-file source\<close>

lemma jsonOut_loop_null_absent:
  "jm k = Some ''null'' \<Longrightarrow>
     jsonOut_loop lib strs (jm(k := None)) pp out = jsonOut_loop lib strs jm pp out"
  by (induction pp arbitrary: out) (auto split: option.splits sum.splits)

lemma jsonOut_loop_null_skipped:
  "jsonOut_loop lib strs jm pp out = Inr out' \<Longrightarrow> jm (ToLower lib n) = Some ''null'' \<Longrightarrow>
     out' n = out n"
  by (induction pp arbitrary: out) (auto split: option.splits sum.splits if_splits)

text \<open>
  C7. Let the inner source return the map \<open>m\<close>. Every key of \<open>m\<close> has its value from
  \<open>m\<close> in the result. When a document is decoded, a parameter name whose key in the
  document holds \<^verbatim>\<open>null\<close> gets nothing from the document: the result has for it what
  \<open>m\<close> has. And the call gives the same outcome as with the document from which that
  key has been removed.
\<close>

theorem sourceJSON_null_and_precedence:
  assumes inner: "innerSrc sj (pp @ [configParam]) = Inr m"
  shows
    "(sourceJSON_Parse lib strs fs sj pp = Inr res \<longrightarrow>
        (\<forall>k v. m k = Some v \<longrightarrow> res k = Some v)) \<and>
     (sourceJSON_Parse lib strs fs sj pp = Inr res \<and> jsonDecoder fs sj m = Some (Inr jm) \<and>
      jm (ToLower lib n) = Some ''null'' \<longrightarrow> res n = m n) \<and>
     (jsonDecoder fs sj m = Some (Inr jm) \<and> jm k = Some ''null'' \<and>
      innerSrc sj' = innerSrc sj \<and> jsonDecoder fs' sj' m = Some (Inr (jm(k := None))) \<longrightarrow>
        sourceJSON_Parse lib strs fs' sj' pp = sourceJSON_Parse lib strs fs sj pp)"
proof (intro conjI impI allI)
  fix k v
  assume "sourceJSON_Parse lib strs fs sj pp = Inr res" and "m k = Some v"
  then show "res k = Some v"
    using inner
    by (auto simp: sourceJSON_Parse_def Let_def map_add_def split: option.splits sum.splits)
next
  assume a: "sourceJSON_Parse lib strs fs sj pp = Inr res \<and> jsonDecoder fs sj m = Some (Inr jm) \<and>
      jm (ToLower lib n) = Some ''null''"
  then obtain out where out: "jsonOut_loop lib strs jm (pp @ [configParam]) Map.empty = Inr out"
    and res: "res = out ++ m"
    using inner by (auto simp: sourceJSON_Parse_def Let_def split: sum.splits)
  have "out n = None" using jsonOut_loop_null_skipped [OF out] a by simp
  then show "res n = m n" using res by (simp add: map_add_def split: option.splits)
next
  assume a: "jsonDecoder fs sj m = Some (Inr jm) \<and> jm k = Some ''null'' \<and>
      innerSrc sj' = innerSrc sj \<and> jsonDecoder fs' sj' m = Some (Inr (jm(k := None)))"
  then show "sourceJSON_Parse lib strs fs' sj' pp = sourceJSON_Parse lib strs fs sj pp"
    using inner by (simp add: sourceJSON_Parse_def Let_def jsonOut_loop_null_absent)
qed

theorem sourceJSON_null_and_precedence_witness:
  "\<forall>lib.
     sourceJSON_Parse (lib\<lparr>ToLower := asciiLower\<rparr>) (paramTypeJSONStringers lib) (\<lambda>f. Inl ''no file'')
       \<lparr>innerSrc = SourceStub [''a'' \<mapsto> ''9''],
        testJSONFile = Some (Inr [''a'' \<mapsto> ''1'', ''b'' \<mapsto> ''2'', ''c'' \<mapsto> ''null''])\<rparr>
       [\<lparr>ParamType = ''int'', Name = ''A'', Default = [], Usage = [], Required = False\<rparr>,
        \<lparr>ParamType = ''int'', Name = ''b'', Default = [], Usage = [], Required = False\<rparr>,
        \<lparr>ParamType = ''int'', Name = ''c'', Default = ''7'', Usage = [], Required = False\<rparr>]
     = Inr [''A'' \<mapsto> ''1'', ''b'' \<mapsto> ''2'', ''a'' \<mapsto> ''9''] \<and>
     sourceJSON_Parse (lib\<lparr>ToLower := asciiLower\<rparr>) (paramTypeJSONStringers lib) (\<lambda>f. Inl ''no file'')
       \<lparr>innerSrc = SourceStub [''a'' \<mapsto> ''9''],
        testJSONFile = Some (Inr [''a'' \<mapsto> ''1'', ''b'' \<mapsto> ''2''])\<rparr>
       [\<lparr>ParamType = ''int'', Name = ''A'', Default = [], Usage = [], Required = False\<rparr>,
        \<lparr>ParamType = ''int'', Name = ''b'', Default = [], Usage = [], Required = False\<rparr>,
        \<lparr>ParamType = ''int'', Name = ''c'', Default = ''7'', Usage = [], Required = False\<rparr>]
     = Inr [''A'' \<mapsto> ''1'', ''b'' \<mapsto> ''2'', ''a'' \<mapsto> ''9'']"
proof (intro allI)
  fix lib :: golib
  let ?L = "lib\<lparr>ToLower := asciiLower\<rparr>"
  let ?S = "paramTypeJSONStringers lib"
  let ?F = "\<lambda>f::string. Inl ''no file'' :: string + smap"
  let ?m = "[''a'' \<mapsto> ''9''] :: smap"
  let ?jm = "[''a'' \<mapsto> ''1'', ''b'' \<mapsto> ''2'', ''c'' \<mapsto> ''null''] :: smap"
  let ?sj = "\<lparr>innerSrc = SourceStub ?m, testJSONFile = Some (Inr ?jm)\<rparr>"
  let ?sj' = "\<lparr>innerSrc = SourceStub ?m, testJSONFile = Some (Inr (?jm(''c'' := None)))\<rparr>"
  let ?pp = "[\<lparr>ParamType = ''int'', Name = ''A'', Default = [], Usage = [], Required = False\<rparr>,
        \<lparr>ParamType = ''int'', Name = ''b'', Default = [], Usage = [], Required = False\<rparr>,
        \<lparr>ParamType = ''int'', Name = ''c'', Default = ''7'', Usage = [], Required = False\<rparr>]"
  let ?res = "[''A'' \<mapsto> ''1'', ''b'' \<mapsto> ''2'', ''a'' \<mapsto> ''9''] :: smap"
  have inner: "innerSrc ?sj (?pp @ [configParam]) = Inr ?m"
    by (simp add: SourceStub_def)
  have dec: "jsonDecoder ?F ?sj ?m = Some (Inr ?jm)"
    "jsonDecoder ?F ?sj' ?m = Some (Inr (?jm(''c'' := None)))"
    by (simp_all add: jsonDecoder_def paramName_def)
  have out: "jsonOut_loop ?L ?S ?jm (?pp @ [configParam]) Map.empty
               = Inr [''A'' \<mapsto> ''1'', ''b'' \<mapsto> ''2'']"
    by (simp add: configParam_def paramName_def asciiLower_def paramTypeJSONStringers_def
        JSONStringAsIs_def ParamTypeString_def ParamTypeInt_def ParamTypeBool_def
        ParamTypeDuration_def ParamTypeJSON_def)
  have "[''A'' \<mapsto> ''1'', ''b'' \<mapsto> ''2''] ++ ?m = ?res"
    by (rule ext) (simp add: map_add_def)
  then have run: "sourceJSON_Parse ?L ?S ?F ?sj ?pp = Inr ?res"
    using inner dec(1) out by (simp add: sourceJSON_Parse_def)
  have null: "?jm ''c'' = Some ''null''" "?jm (ToLower ?L ''c'') = Some ''null''"
    by (simp_all add: asciiLower_def)
  note inst = sourceJSON_null_and_precedence [OF inner, where lib = ?L and strs = ?S and fs = ?F
      and res = ?res and jm = ?jm and n = "''c''" and k = "''c''" and sj' = ?sj' and fs' = ?F]
  have keep: "?res ''a'' = Some ''9''" and absent: "?res ''c'' = ?m ''c''"
    and same: "sourceJSON_Parse ?L ?S ?F ?sj' ?pp = sourceJSON_Parse ?L ?S ?F ?sj ?pp"
    using inst run dec null by simp_all
  have "?jm(''c'' := None) = [''a'' \<mapsto> ''1'', ''b'' \<mapsto> ''2'']"
    by (rule ext) simp
  then show "sourceJSON_Parse ?L ?S ?F ?sj ?pp = Inr ?res \<and>
     sourceJSON_Parse ?L ?S ?F
       \<lparr>innerSrc = SourceStub ?m, testJSONFile = Some (Inr [''a'' \<mapsto> ''1'', ''b'' \<mapsto> ''2''])\<rparr> ?pp
     = Inr ?res"
    using run same by simp
qed

subsection \<open>Resolution\<close>

lemma run_slots [simp]: "slots (run fn st) = slots st"
  by (induction fn st rule: run.induct) auto

lemma drain_slots [simp]: "slots (drain st) = slots st"
proof (induction st rule: drain.induct)
  case (1 st)
  show ?case
  proof (cases "doneCh_closed st")
    case True
    then show ?thesis by (simp add: drain.simps [of st])
  next
    case False
    show ?thesis
    proof (cases "dos st")
      case Nil
      then show ?thesis using False by (simp add: drain.simps [of st])
    next
      case (Cons fn rest)
      then show ?thesis using False "1.IH" [OF False Cons] by (simp add: drain.simps [of st])
    qed
  qed
qed

lemma resolve_loop_append:
  "resolve_loop P vals m (pre @ post) h =
     (case resolve_loop P vals m pre h of
        Inl flt \<Rightarrow> Inl flt
      | Inr h1 \<Rightarrow> resolve_loop P vals m post h1)"
  by (induction pre arbitrary: h) (auto split: sum.splits)

lemma resolve_loop_required:
  "resolve_loop P vals m pp h = Inr h' \<Longrightarrow> p \<in> set pp \<Longrightarrow> \<not> (vals (Name p) = None \<and> Required p)"
  by (induction pp arbitrary: h) (auto split: if_splits sum.splits)

lemma convert_writes:
  "convert P m p val h = Inr h' \<Longrightarrow>
     \<exists>f e s s'. P (ParamType p) = Some f \<and> m (Name p) = Some e \<and> h (ptr e) = Some s \<and>
                f val s = Inr s' \<and> h' = h(ptr e \<mapsto> s')"
  by (auto simp: convert_def split: option.splits sum.splits fault.splits)

lemma resolve_loop_other_slots:
  "resolve_loop P vals m pp h = Inr h' \<Longrightarrow>
   \<forall>q\<in>set pp. \<forall>e. m (Name q) = Some e \<longrightarrow> ptr e \<noteq> a \<Longrightarrow>
   h' a = h a"
proof (induction pp arbitrary: h)
  case Nil
  then show ?case by simp
next
  case (Cons q pp)
  from Cons.prems(1) obtain h1 where
    c: "convert P m q (case vals (Name q) of Some val \<Rightarrow> val | None \<Rightarrow> Default q) h = Inr h1"
    and r: "resolve_loop P vals m pp h1 = Inr h'"
    by (auto split: if_splits sum.splits)
  from convert_writes [OF c] obtain e s' where e: "m (Name q) = Some e" "h1 = h(ptr e \<mapsto> s')"
    by blast
  have "ptr e \<noteq> a" using Cons.prems(2) e(1) by simp
  then have "h1 a = h a" using e(2) by simp
  moreover have "h' a = h1 a" using Cons.IH [OF r] Cons.prems(2) by simp
  ultimately show ?case by simp
qed

lemma resolve_loop_slot:
  assumes ok: "resolve_loop P vals m pp h = Inr h'"
      and mem: "p \<in> set pp"
      and dist: "distinct (map Name pp)"
      and ent: "m (Name p) = Some e"
      and sep: "\<forall>q\<in>set pp. Name q \<noteq> Name p \<longrightarrow> (\<forall>e'. m (Name q) = Some e' \<longrightarrow> ptr e' \<noteq> ptr e)"
  shows "\<exists>f s s'. P (ParamType p) = Some f \<and> h (ptr e) = Some s \<and>
           f (case vals (Name p) of Some val \<Rightarrow> val | None \<Rightarrow> Default p) s = Inr s' \<and>
           h' (ptr e) = Some s'"
proof -
  from mem obtain pre post where split: "pp = pre @ p # post"
    by (auto simp: in_set_conv_decomp)
  have pre_names: "\<forall>q\<in>set pre. Name q \<noteq> Name p" and post_names: "\<forall>q\<in>set post. Name q \<noteq> Name p"
    using dist split by (force simp: image_iff)+
  from ok split obtain h1 where pre_ok: "resolve_loop P vals m pre h = Inr h1"
    and rest_ok: "resolve_loop P vals m (p # post) h1 = Inr h'"
    by (auto simp: resolve_loop_append split: sum.splits)
  from rest_ok obtain h2 where
    c: "convert P m p (case vals (Name p) of Some val \<Rightarrow> val | None \<Rightarrow> Default p) h1 = Inr h2"
    and post_ok: "resolve_loop P vals m post h2 = Inr h'"
    by (auto split: if_splits sum.splits)
  have "\<forall>q\<in>set pre. \<forall>e'. m (Name q) = Some e' \<longrightarrow> ptr e' \<noteq> ptr e"
    using sep pre_names split by auto
  then have h1_eq: "h1 (ptr e) = h (ptr e)"
    using resolve_loop_other_slots [OF pre_ok] by blast
  have "\<forall>q\<in>set post. \<forall>e'. m (Name q) = Some e' \<longrightarrow> ptr e' \<noteq> ptr e"
    using sep post_names split by auto
  then have h'_eq: "h' (ptr e) = h2 (ptr e)"
    using resolve_loop_other_slots [OF post_ok] by blast
  from convert_writes [OF c] ent obtain f s s' where
    "P (ParamType p) = Some f" "h1 (ptr e) = Some s"
    "f (case vals (Name p) of Some val \<Rightarrow> val | None \<Rightarrow> Default p) s = Inr s'"
    "h2 = h1(ptr e \<mapsto> s')"
    by auto
  then show ?thesis using h1_eq h'_eq by auto
qed

lemma snapshot_set:
  "p \<in> set (snapshot ns m) \<longleftrightarrow> (\<exists>n\<in>set ns. \<exists>e. m n = Some e \<and> decl e = p)"
  by (induction ns) (auto simp: snapshot_def List.map_filter_def)

lemma snapshot_names:
  "registry_ok m \<Longrightarrow> map Name (snapshot ns m) = filter (\<lambda>n. m n \<noteq> None) ns"
  by (induction ns) (auto simp: snapshot_def List.map_filter_def registry_ok_def)

lemma snapshot_distinct:
  "registry_ok m \<Longrightarrow> distinct ns \<Longrightarrow> distinct (map Name (snapshot ns m))"
  by (simp add: snapshot_names)

lemma Parse_Inr:
  "Parse P s ns st = Inr st' \<Longrightarrow> s (snapshot ns (reg_m st)) = Inr vals \<Longrightarrow>
     \<exists>h'. resolve_loop P vals (reg_m st) (snapshot ns (reg_m st)) (slots st) = Inr h' \<and>
          slots st' = h' \<and> reg_m st' = Map.empty"
  by (auto simp: Parse_def Let_def split: sum.splits)

lemma builtin_parsers_faults:
  "paramTypeParsers lib t = Some f \<Longrightarrow> f v sl = Inl flt \<Longrightarrow> (\<exists>err. flt = Error err) \<or> flt = PanicRuntime"
  by (auto simp: paramTypeParsers_def parseParamTypeString_def parseParamTypeInt_def
      parseParamTypeInt64_def parseParamTypeBool_def parseParamTypeDuration_def
      parseParamTypeJSON_def split: if_splits sum.splits slotval.splits)

lemma convert_fault:
  "convert P m p val h = Inl flt \<Longrightarrow>
     flt = PanicRuntime \<or> (\<exists>err. flt = PanicParse (Name p) err) \<or>
     (\<exists>f sl. P (ParamType p) = Some f \<and> f val sl = Inl flt)"
  by (auto simp: convert_def split: option.splits sum.splits fault.splits)

lemma resolve_loop_fault:
  "resolve_loop P vals m pp h = Inl flt \<Longrightarrow>
     (\<exists>p\<in>set pp. vals (Name p) = None \<and> Required p \<and> flt = PanicRequired (Name p)) \<or>
     flt = PanicRuntime \<or> (\<exists>n err. flt = PanicParse n err) \<or>
     (\<exists>t f v sl. P t = Some f \<and> f v sl = Inl flt)"
proof (induction pp arbitrary: h)
  case Nil
  then show ?case by simp
next
  case (Cons p pp)
  show ?case
  proof (cases "vals (Name p) = None \<and> Required p")
    case True
    then show ?thesis using Cons.prems by auto
  next
    case False
    let ?val = "case vals (Name p) of Some val \<Rightarrow> val | None \<Rightarrow> Default p"
    show ?thesis
    proof (cases "convert P m p ?val h")
      case (Inl flt')
      then have "flt' = flt" using Cons.prems False by auto
      then show ?thesis using convert_fault [OF Inl] by blast
    next
      case (Inr h1)
      then have "resolve_loop P vals m pp h1 = Inl flt" using Cons.prems False by auto
      from Cons.IH [OF this] show ?thesis by auto
    qed
  qed
qed

lemma builtin_parsers_plain:
  "paramTypeParsers lib t = Some f \<Longrightarrow> f v sl \<noteq> Inl (PanicRequired n)"
  using builtin_parsers_faults [of lib t f v sl "PanicRequired n"] by auto

text \<open>
  C3. Let the source return the map \<open>vals\<close> for the snapshot. (1) When the loop reaches
  a parameter that is required and has no value in \<open>vals\<close>, the parameters before it
  having been filled, \<^verbatim>\<open>Parse\<close> panics with "parameter required but not set" for it.
  (2) When \<^verbatim>\<open>Parse\<close> returns, no declared parameter is required and without a value,
  and the slot of every declared parameter (one that no other name shares) holds the
  result of the parameter type's parser on the value from \<open>vals\<close> if there is one and
  else on the default; so a string parameter with default "x" and no value in \<open>vals\<close>
  holds "x".
\<close>

theorem Parse_precedence:
  assumes src: "s (snapshot ns (reg_m st)) = Inr vals"
  shows
    "(snapshot ns (reg_m st) = pre @ p # post \<and>
      resolve_loop P vals (reg_m st) pre (slots st) = Inr h1 \<and>
      vals (Name p) = None \<and> Required p \<longrightarrow>
        Parse P s ns st = Inl (PanicRequired (Name p))) \<and>
     (Parse P s ns st = Inr st' \<and> registry_ok (reg_m st) \<and> distinct ns \<and>
      n \<in> set ns \<and> reg_m st n = Some e \<and>
      (\<forall>n' e'. n' \<noteq> n \<and> reg_m st n' = Some e' \<longrightarrow> ptr e' \<noteq> ptr e) \<longrightarrow>
        \<not> (vals n = None \<and> Required (decl e)) \<and>
        (\<exists>f s0 s1. P (ParamType (decl e)) = Some f \<and> slots st (ptr e) = Some s0 \<and>
           f (case vals n of Some val \<Rightarrow> val | None \<Rightarrow> Default (decl e)) s0 = Inr s1 \<and>
           slots st' (ptr e) = Some s1) \<and>
        (P (ParamType (decl e)) = Some parseParamTypeString \<and> vals n = None \<and>
         Default (decl e) = ''x'' \<longrightarrow> slots st' (ptr e) = Some (SString ''x'')))"
proof (intro conjI impI)
  assume a: "snapshot ns (reg_m st) = pre @ p # post \<and>
      resolve_loop P vals (reg_m st) pre (slots st) = Inr h1 \<and>
      vals (Name p) = None \<and> Required p"
  then have "resolve_loop P vals (reg_m st) (snapshot ns (reg_m st)) (slots st)
               = Inl (PanicRequired (Name p))"
    by (simp add: resolve_loop_append)
  then show "Parse P s ns st = Inl (PanicRequired (Name p))"
    using src by (simp add: Parse_def)
next
  assume a: "Parse P s ns st = Inr st' \<and> registry_ok (reg_m st) \<and> distinct ns \<and>
      n \<in> set ns \<and> reg_m st n = Some e \<and>
      (\<forall>n' e'. n' \<noteq> n \<and> reg_m st n' = Some e' \<longrightarrow> ptr e' \<noteq> ptr e)"
  let ?pp = "snapshot ns (reg_m st)"
  let ?p = "decl e"
  from a have name: "Name ?p = n" by (simp add: registry_ok_def)
  from a src obtain h' where
    ok: "resolve_loop P vals (reg_m st) ?pp (slots st) = Inr h'" and h': "slots st' = h'"
    using Parse_Inr by blast
  have mem: "?p \<in> set ?pp" using a by (auto simp: snapshot_set)
  have dist: "distinct (map Name ?pp)" using a by (simp add: snapshot_distinct)
  have ent: "reg_m st (Name ?p) = Some e" using a name by simp
  have sep: "\<forall>q\<in>set ?pp. Name q \<noteq> Name ?p \<longrightarrow>
               (\<forall>e'. reg_m st (Name q) = Some e' \<longrightarrow> ptr e' \<noteq> ptr e)"
    using a name by blast
  show req: "\<not> (vals n = None \<and> Required (decl e))"
    using resolve_loop_required [OF ok mem] name by simp
  show slot: "\<exists>f s0 s1. P (ParamType (decl e)) = Some f \<and> slots st (ptr e) = Some s0 \<and>
           f (case vals n of Some val \<Rightarrow> val | None \<Rightarrow> Default (decl e)) s0 = Inr s1 \<and>
           slots st' (ptr e) = Some s1"
    using resolve_loop_slot [OF ok mem dist ent sep] name h' by simp
  assume b: "P (ParamType (decl e)) = Some parseParamTypeString \<and> vals n = None \<and>
         Default (decl e) = ''x''"
  from slot b obtain s0 s1 where
    "parseParamTypeString ''x'' s0 = Inr s1" "slots st' (ptr e) = Some s1"
    by auto
  then show "slots st' (ptr e) = Some (SString ''x'')"
    by (auto simp: parseParamTypeString_def split: slotval.splits)
qed

theorem Parse_precedence_witness:
  "\<forall>lib.
     Parse (paramTypeParsers lib) (SourceStub [''s'' \<mapsto> ''v''])
       [''d'', ''r'', ''s'']
       \<lparr>reg_m = [''d'' \<mapsto> \<lparr>decl = \<lparr>ParamType = ''string'', Name = ''d'', Default = ''x'',
                                      Usage = ''u'', Required = False\<rparr>, ptr = 1\<rparr>,
                  ''r'' \<mapsto> \<lparr>decl = \<lparr>ParamType = ''string'', Name = ''r'', Default = [],
                                      Usage = ''u'', Required = True\<rparr>, ptr = 2\<rparr>],
        slots = [1 \<mapsto> SString [], 2 \<mapsto> SString []],
        dos = [[]], doneCh_closed = False, trace = []\<rparr>
       = Inl (PanicRequired ''r'') \<and>
     Parse (paramTypeParsers lib) (SourceStub [''s'' \<mapsto> ''v''])
       [''d'', ''s'']
       \<lparr>reg_m = [''d'' \<mapsto> \<lparr>decl = \<lparr>ParamType = ''string'', Name = ''d'', Default = ''x'',
                                      Usage = ''u'', Required = False\<rparr>, ptr = 1\<rparr>,
                  ''s'' \<mapsto> \<lparr>decl = \<lparr>ParamType = ''string'', Name = ''s'', Default = ''y'',
                                      Usage = ''u'', Required = False\<rparr>, ptr = 2\<rparr>],
        slots = [1 \<mapsto> SString [], 2 \<mapsto> SString []],
        dos = [[]], doneCh_closed = False, trace = []\<rparr>
       = Inr \<lparr>reg_m = Map.empty,
              slots = [1 \<mapsto> SString ''x'', 2 \<mapsto> SString ''v''],
              dos = [], doneCh_closed = True, trace = []\<rparr>"
proof (intro allI conjI)
  fix lib :: golib
  let ?P = "paramTypeParsers lib"
  let ?s = "SourceStub [''s'' \<mapsto> ''v'']"
  let ?vals = "[''s'' \<mapsto> ''v''] :: smap"
  let ?d = "\<lparr>ParamType = ''string'', Name = ''d'', Default = ''x'', Usage = ''u'', Required = False\<rparr>"
  let ?r = "\<lparr>ParamType = ''string'', Name = ''r'', Default = [], Usage = ''u'', Required = True\<rparr>"
  let ?st = "\<lparr>reg_m = [''d'' \<mapsto> \<lparr>decl = ?d, ptr = 1\<rparr>, ''r'' \<mapsto> \<lparr>decl = ?r, ptr = 2\<rparr>],
        slots = [1 \<mapsto> SString [], 2 \<mapsto> SString []],
        dos = [[]], doneCh_closed = False, trace = []\<rparr>"
  have Pstr: "?P ''string'' = Some parseParamTypeString"
    by (simp add: paramTypeParsers_def ParamTypeString_def ParamTypeInt_def ParamTypeInt64_def
        ParamTypeBool_def ParamTypeDuration_def ParamTypeJSON_def)
  have snap: "snapshot [''d'', ''r'', ''s''] (reg_m ?st) = [] @ ?d # [?r]"
    by (simp add: snapshot_def List.map_filter_def)
  have src: "?s (snapshot [''d'', ''r'', ''s''] (reg_m ?st)) = Inr ?vals"
    by (simp add: SourceStub_def)
  have snap': "snapshot [''d'', ''r'', ''s''] (reg_m ?st) = [?d] @ ?r # []"
    using snap by simp
  have pre: "resolve_loop ?P ?vals (reg_m ?st) [?d] (slots ?st)
               = Inr [1 \<mapsto> SString ''x'', 2 \<mapsto> SString []]"
  proof -
    have "(slots ?st)(1 \<mapsto> SString ''x'') = [1 \<mapsto> SString ''x'', 2 \<mapsto> SString []]"
      by (rule ext) simp
    then show ?thesis
      by (simp add: convert_def Pstr parseParamTypeString_def)
  qed
  show "Parse ?P ?s [''d'', ''r'', ''s''] ?st = Inl (PanicRequired ''r'')"
    using Parse_precedence [where s = ?s and ns = "[''d'', ''r'', ''s'']" and st = ?st
        and vals = ?vals and P = ?P and pre = "[?d]" and p = ?r and post = "[]"
        and ?h1.0 = "[1 \<mapsto> SString ''x'', 2 \<mapsto> SString []]"] src snap' pre
    by simp
next
  fix lib :: golib
  let ?P = "paramTypeParsers lib"
  let ?s = "SourceStub [''s'' \<mapsto> ''v'']"
  let ?vals = "[''s'' \<mapsto> ''v''] :: smap"
  let ?d = "\<lparr>ParamType = ''string'', Name = ''d'', Default = ''x'', Usage = ''u'', Required = False\<rparr>"
  let ?q = "\<lparr>ParamType = ''string'', Name = ''s'', Default = ''y'', Usage = ''u'', Required = False\<rparr>"
  let ?e = "\<lparr>decl = ?d, ptr = 1\<rparr>"
  let ?st = "\<lparr>reg_m = [''d'' \<mapsto> ?e, ''s'' \<mapsto> \<lparr>decl = ?q, ptr = 2\<rparr>],
        slots = [1 \<mapsto> SString [], 2 \<mapsto> SString []],
        dos = [[]], doneCh_closed = False, trace = []\<rparr>"
  let ?st' = "\<lparr>reg_m = Map.empty, slots = [1 \<mapsto> SString ''x'', 2 \<mapsto> SString ''v''],
        dos = [], doneCh_closed = True, trace = []\<rparr>"
  have Pstr: "?P ''string'' = Some parseParamTypeString"
    by (simp add: paramTypeParsers_def ParamTypeString_def ParamTypeInt_def ParamTypeInt64_def
        ParamTypeBool_def ParamTypeDuration_def ParamTypeJSON_def)
  have snap: "snapshot [''d'', ''s''] (reg_m ?st) = [?d, ?q]"
    by (simp add: snapshot_def List.map_filter_def)
  have src: "?s (snapshot [''d'', ''s''] (reg_m ?st)) = Inr ?vals"
    by (simp add: SourceStub_def)
  have heap: "[1 \<mapsto> SString [], 2 \<mapsto> SString [], 1 \<mapsto> SString ''x'', 2 \<mapsto> SString ''v'']
                = [1 \<mapsto> SString ''x'', 2 \<mapsto> SString ''v'']"
    by (rule ext) simp
  have run: "Parse ?P ?s [''d'', ''s''] ?st = Inr ?st'"
    by (simp add: Parse_def snapshot_def List.map_filter_def SourceStub_def convert_def Pstr
        parseParamTypeString_def drain.simps heap)
  have ok: "registry_ok (reg_m ?st)"
    by (auto simp: registry_ok_def split: if_splits)
  have sep: "\<forall>n' e'. n' \<noteq> ''d'' \<and> reg_m ?st n' = Some e' \<longrightarrow> ptr e' \<noteq> ptr ?e"
    by (auto split: if_splits)
  have "slots ?st' (ptr ?e) = Some (SString ''x'')"
    using Parse_precedence [where s = ?s and ns = "[''d'', ''s'']" and st = ?st
        and vals = ?vals and P = ?P and st' = ?st' and n = "''d''" and e = ?e]
      src run ok sep Pstr
    by simp
  then show "Parse ?P ?s [''d'', ''s''] ?st = Inr ?st'"
    using run by simp
qed

text \<open>
  C10. Let the source return a map \<open>vals\<close> that holds the empty string for the name
  \<open>n\<close>. Then \<^verbatim>\<open>Parse\<close> does not panic with "parameter required but not set" for
  \<open>n\<close> (no parser raising that panic by itself); the loop hands the empty
  string to the parser whether the parameter is required or not and whatever its
  default; and when \<^verbatim>\<open>Parse\<close> returns, the slot of a string parameter \<open>n\<close> holds the
  empty string.
\<close>

theorem Parse_empty_value:
  assumes src: "s (snapshot ns (reg_m st)) = Inr vals"
      and empty: "vals n = Some []"
  shows
    "((\<forall>t f v sl. P t = Some f \<longrightarrow> f v sl \<noteq> Inl (PanicRequired n)) \<longrightarrow>
        Parse P s ns st \<noteq> Inl (PanicRequired n)) \<and>
     (\<forall>p pp h. Name p = n \<longrightarrow>
        resolve_loop P vals (reg_m st) (p # pp) h =
          (case convert P (reg_m st) p [] h of
             Inl flt \<Rightarrow> Inl flt
           | Inr h' \<Rightarrow> resolve_loop P vals (reg_m st) pp h')) \<and>
     (Parse P s ns st = Inr st' \<and> registry_ok (reg_m st) \<and> distinct ns \<and>
      n \<in> set ns \<and> reg_m st n = Some e \<and>
      (\<forall>n' e'. n' \<noteq> n \<and> reg_m st n' = Some e' \<longrightarrow> ptr e' \<noteq> ptr e) \<and>
      P (ParamType (decl e)) = Some parseParamTypeString \<longrightarrow>
        slots st' (ptr e) = Some (SString []))"
proof (intro conjI impI allI)
  assume plain: "\<forall>t f v sl. P t = Some f \<longrightarrow> f v sl \<noteq> Inl (PanicRequired n)"
  show "Parse P s ns st \<noteq> Inl (PanicRequired n)"
  proof
    assume "Parse P s ns st = Inl (PanicRequired n)"
    then have "resolve_loop P vals (reg_m st) (snapshot ns (reg_m st)) (slots st)
                 = Inl (PanicRequired n)"
      using src by (auto simp: Parse_def split: sum.splits)
    from resolve_loop_fault [OF this] show False
      using empty plain by auto
  qed
next
  fix p :: Param and pp :: "Param list" and h :: heap
  assume "Name p = n"
  then show "resolve_loop P vals (reg_m st) (p # pp) h =
          (case convert P (reg_m st) p [] h of
             Inl flt \<Rightarrow> Inl flt
           | Inr h' \<Rightarrow> resolve_loop P vals (reg_m st) pp h')"
    using empty by simp
next
  assume a: "Parse P s ns st = Inr st' \<and> registry_ok (reg_m st) \<and> distinct ns \<and>
      n \<in> set ns \<and> reg_m st n = Some e \<and>
      (\<forall>n' e'. n' \<noteq> n \<and> reg_m st n' = Some e' \<longrightarrow> ptr e' \<noteq> ptr e) \<and>
      P (ParamType (decl e)) = Some parseParamTypeString"
  let ?pp = "snapshot ns (reg_m st)"
  let ?p = "decl e"
  from a have name: "Name ?p = n" by (simp add: registry_ok_def)
  from a src obtain h' where
    ok: "resolve_loop P vals (reg_m st) ?pp (slots st) = Inr h'" and h': "slots st' = h'"
    using Parse_Inr by blast
  have mem: "?p \<in> set ?pp" using a by (auto simp: snapshot_set)
  have dist: "distinct (map Name ?pp)" using a by (simp add: snapshot_distinct)
  have ent: "reg_m st (Name ?p) = Some e" using a name by simp
  have sep: "\<forall>q\<in>set ?pp. Name q \<noteq> Name ?p \<longrightarrow>
               (\<forall>e'. reg_m st (Name q) = Some e' \<longrightarrow> ptr e' \<noteq> ptr e)"
    using a name by blast
  from resolve_loop_slot [OF ok mem dist ent sep] a name empty h' obtain s0 s1 where
    "parseParamTypeString [] s0 = Inr s1" "slots st' (ptr e) = Some s1"
    by auto
  then show "slots st' (ptr e) = Some (SString [])"
    by (auto simp: parseParamTypeString_def split: slotval.splits)
qed

theorem Parse_empty_value_witness:
  "\<forall>lib.
     Parse (paramTypeParsers lib) (parseEnv (lib\<lparr>ToUpper := asciiUpper\<rparr>) [''HOME=/root'', ''R='']) [''r'']
       \<lparr>reg_m = [''r'' \<mapsto> \<lparr>decl = \<lparr>ParamType = ''string'', Name = ''r'', Default = ''d'',
                                      Usage = ''u'', Required = True\<rparr>, ptr = 1\<rparr>],
        slots = [1 \<mapsto> SString ''old''],
        dos = [[]], doneCh_closed = False, trace = []\<rparr>
       = Inr \<lparr>reg_m = Map.empty, slots = [1 \<mapsto> SString []],
              dos = [], doneCh_closed = True, trace = []\<rparr>"
proof (intro allI)
  fix lib :: golib
  let ?P = "paramTypeParsers lib"
  let ?s = "parseEnv (lib\<lparr>ToUpper := asciiUpper\<rparr>) [''HOME=/root'', ''R='']"
  let ?vals = "[''r'' \<mapsto> []] :: smap"
  let ?r = "\<lparr>ParamType = ''string'', Name = ''r'', Default = ''d'', Usage = ''u'', Required = True\<rparr>"
  let ?e = "\<lparr>decl = ?r, ptr = 1\<rparr>"
  let ?st = "\<lparr>reg_m = [''r'' \<mapsto> ?e], slots = [1 \<mapsto> SString ''old''],
        dos = [[]], doneCh_closed = False, trace = []\<rparr>"
  let ?st' = "\<lparr>reg_m = Map.empty, slots = [1 \<mapsto> SString []],
        dos = [], doneCh_closed = True, trace = []\<rparr>"
  have Pstr: "?P ''string'' = Some parseParamTypeString"
    by (simp add: paramTypeParsers_def ParamTypeString_def ParamTypeInt_def ParamTypeInt64_def
        ParamTypeBool_def ParamTypeDuration_def ParamTypeJSON_def)
  have snap: "snapshot [''r''] (reg_m ?st) = [?r]"
    by (simp add: snapshot_def List.map_filter_def)
  have env: "?s [?r] = Inr ?vals"
    by (simp add: parseEnv_def envM_def envName_def asciiUpper_def SplitN2_def)
  have src: "?s (snapshot [''r''] (reg_m ?st)) = Inr ?vals"
    using env by (simp add: snapshot_def List.map_filter_def)
  have empty: "?vals ''r'' = Some []" by simp
  have inst:
    "((\<forall>t f v sl. ?P t = Some f \<longrightarrow> f v sl \<noteq> Inl (PanicRequired ''r'')) \<longrightarrow>
        Parse ?P ?s [''r''] ?st \<noteq> Inl (PanicRequired ''r'')) \<and>
     (\<forall>p pp h. Name p = ''r'' \<longrightarrow>
        resolve_loop ?P ?vals (reg_m ?st) (p # pp) h =
          (case convert ?P (reg_m ?st) p [] h of
             Inl flt \<Rightarrow> Inl flt
           | Inr h' \<Rightarrow> resolve_loop ?P ?vals (reg_m ?st) pp h')) \<and>
     (Parse ?P ?s [''r''] ?st = Inr ?st' \<and> registry_ok (reg_m ?st) \<and> distinct [''r''] \<and>
      ''r'' \<in> set [''r''] \<and> reg_m ?st ''r'' = Some ?e \<and>
      (\<forall>n' e'. n' \<noteq> ''r'' \<and> reg_m ?st n' = Some e' \<longrightarrow> ptr e' \<noteq> ptr ?e) \<and>
      ?P (ParamType (decl ?e)) = Some parseParamTypeString \<longrightarrow>
        slots ?st' (ptr ?e) = Some (SString []))"
    using src empty
    by (rule Parse_empty_value [where s = ?s and ns = "[''r'']" and st = ?st and vals = ?vals
          and n = "''r''" and P = ?P and st' = ?st' and e = ?e])
  have plain: "\<forall>t f v sl. ?P t = Some f \<longrightarrow> f v sl \<noteq> Inl (PanicRequired ''r'')"
    using builtin_parsers_plain by blast
  have no_panic: "Parse ?P ?s [''r''] ?st \<noteq> Inl (PanicRequired ''r'')"
    using inst plain by blast
  have run: "Parse ?P ?s [''r''] ?st = Inr ?st'"
    by (simp add: Parse_def snapshot_def List.map_filter_def env convert_def Pstr
        parseParamTypeString_def drain.simps)
  have ok: "registry_ok (reg_m ?st)"
    by (auto simp: registry_ok_def split: if_splits)
  have sep: "\<forall>n' e'. n' \<noteq> ''r'' \<and> reg_m ?st n' = Some e' \<longrightarrow> ptr e' \<noteq> ptr ?e"
    by (auto split: if_splits)
  have "slots ?st' (ptr ?e) = Some (SString [])"
    using inst run ok sep Pstr by simp
  then show "Parse ?P ?s [''r''] ?st = Inr ?st'"
    using run no_panic by simp
qed

subsection \<open>Composite source\<close>

lemma foldl_map_add_lookup:
  "(foldl (++) vals ms) k = Some v \<longleftrightarrow>
     (\<exists>i<length ms. (ms ! i) k = Some v \<and> (\<forall>j. i < j \<and> j < length ms \<longrightarrow> (ms ! j) k = None))
     \<or> (vals k = Some v \<and> (\<forall>j<length ms. (ms ! j) k = None))"
proof (induction ms rule: rev_induct)
  case Nil
  then show ?case by simp
next
  case (snoc m ms)
  let ?n = "length ms"
  have nth_old: "\<And>j. j < ?n \<Longrightarrow> (ms @ [m]) ! j = ms ! j"
    by (simp add: nth_append)
  have nth_new: "(ms @ [m]) ! ?n = m"
    by simp
  show ?case
  proof (cases "m k")
    case None
    have "(foldl (++) vals (ms @ [m])) k = (foldl (++) vals ms) k"
      using None by (simp add: map_add_def)
    moreover have "(\<exists>i<length (ms @ [m]). ((ms @ [m]) ! i) k = Some v \<and>
                      (\<forall>j. i < j \<and> j < length (ms @ [m]) \<longrightarrow> ((ms @ [m]) ! j) k = None))
                 \<longleftrightarrow> (\<exists>i<?n. (ms ! i) k = Some v \<and> (\<forall>j. i < j \<and> j < ?n \<longrightarrow> (ms ! j) k = None))"
      using None by (auto simp: less_Suc_eq nth_append)
    moreover have "(\<forall>j<length (ms @ [m]). ((ms @ [m]) ! j) k = None) \<longleftrightarrow> (\<forall>j<?n. (ms ! j) k = None)"
      using None by (auto simp: less_Suc_eq nth_append)
    ultimately show ?thesis using snoc.IH by simp
  next
    case (Some w)
    have "(foldl (++) vals (ms @ [m])) k = Some w"
      using Some by (simp add: map_add_def)
    moreover have "(\<exists>i<length (ms @ [m]). ((ms @ [m]) ! i) k = Some v \<and>
                      (\<forall>j. i < j \<and> j < length (ms @ [m]) \<longrightarrow> ((ms @ [m]) ! j) k = None))
                 \<longleftrightarrow> w = v"
    proof
      assume "\<exists>i<length (ms @ [m]). ((ms @ [m]) ! i) k = Some v \<and>
                      (\<forall>j. i < j \<and> j < length (ms @ [m]) \<longrightarrow> ((ms @ [m]) ! j) k = None)"
      then obtain i where i: "i < Suc ?n" "((ms @ [m]) ! i) k = Some v"
        "\<forall>j. i < j \<and> j < Suc ?n \<longrightarrow> ((ms @ [m]) ! j) k = None" by auto
      show "w = v"
      proof (cases "i = ?n")
        case True
        then show ?thesis using i(2) Some by simp
      next
        case False
        then have "i < ?n" using i(1) by simp
        then have "((ms @ [m]) ! ?n) k = None" using i(3) by blast
        then show ?thesis using Some by simp
      qed
    next
      assume "w = v"
      then have "((ms @ [m]) ! ?n) k = Some v" using Some by simp
      then show "\<exists>i<length (ms @ [m]). ((ms @ [m]) ! i) k = Some v \<and>
                      (\<forall>j. i < j \<and> j < length (ms @ [m]) \<longrightarrow> ((ms @ [m]) ! j) k = None)"
        by (intro exI [of _ ?n]) auto
    qed
    moreover have "\<not> (\<forall>j<length (ms @ [m]). ((ms @ [m]) ! j) k = None)"
      using Some by (auto intro: exI [of _ ?n])
    ultimately show ?thesis by (simp only: length_append) blast
  qed
qed

lemma Sources_loop_ok:
  "length ms = length ss \<Longrightarrow> \<forall>i<length ss. (ss ! i) pp = Inr (ms ! i) \<Longrightarrow>
   Sources_loop ss pp vals = Inr (foldl (++) vals ms)"
proof (induction ss arbitrary: ms vals)
  case Nil
  then show ?case by simp
next
  case (Cons s ss)
  then obtain m ms' where ms: "ms = m # ms'" by (cases ms) auto
  have hd: "s pp = Inr m" using Cons.prems(2) ms by auto
  have tl: "\<forall>i<length ss. (ss ! i) pp = Inr (ms' ! i)"
    using Cons.prems(2) ms by auto
  show ?case using Cons.IH [of ms' "vals ++ m"] Cons.prems(1) hd tl ms by simp
qed

lemma Sources_loop_err:
  "i < length ss \<Longrightarrow> (ss ! i) pp = Inl err \<Longrightarrow> \<forall>j<i. \<exists>m. (ss ! j) pp = Inr m \<Longrightarrow>
   Sources_loop ss pp vals = Inl err"
proof (induction ss arbitrary: i vals)
  case Nil
  then show ?case by simp
next
  case (Cons s ss)
  show ?case
  proof (cases i)
    case 0
    then show ?thesis using Cons.prems by simp
  next
    case (Suc i')
    then obtain m where m: "s pp = Inr m" using Cons.prems(3) by fastforce
    have "\<forall>j<i'. \<exists>m. (ss ! j) pp = Inr m"
      using Cons.prems(3) Suc by fastforce
    then show ?thesis using Cons.IH [of i' "vals ++ m"] Cons.prems(1,2) Suc m by simp
  qed
qed

text \<open>
  C5. The composite source calls its sources in order. When every source returns a map,
  the composite returns a map in which a key has the value given by the last source
  that holds it (so a later source wins a collision and a key held by one source only
  is present). When a source returns an error, the sources before it having returned
  maps, the composite returns that error and no map.
\<close>

theorem Sources_Parse_merge:
  "(length ms = length ss \<and> (\<forall>i<length ss. (ss ! i) pp = Inr (ms ! i)) \<longrightarrow>
      (\<exists>vals. Sources_Parse ss pp = Inr vals \<and>
         (\<forall>k v. vals k = Some v \<longleftrightarrow>
            (\<exists>i<length ms. (ms ! i) k = Some v \<and>
               (\<forall>j. i < j \<and> j < length ms \<longrightarrow> (ms ! j) k = None))))) \<and>
   (i < length ss \<and> (ss ! i) pp = Inl err \<and> (\<forall>j<i. \<exists>m. (ss ! j) pp = Inr m) \<longrightarrow>
      Sources_Parse ss pp = Inl err)"
proof (intro conjI impI)
  assume a: "length ms = length ss \<and> (\<forall>i<length ss. (ss ! i) pp = Inr (ms ! i))"
  then have "Sources_Parse ss pp = Inr (foldl (++) Map.empty ms)"
    by (simp add: Sources_Parse_def Sources_loop_ok)
  moreover have "\<forall>k v. (foldl (++) Map.empty ms) k = Some v \<longleftrightarrow>
            (\<exists>i<length ms. (ms ! i) k = Some v \<and>
               (\<forall>j. i < j \<and> j < length ms \<longrightarrow> (ms ! j) k = None))"
    by (simp add: foldl_map_add_lookup)
  ultimately show "\<exists>vals. Sources_Parse ss pp = Inr vals \<and>
         (\<forall>k v. vals k = Some v \<longleftrightarrow>
            (\<exists>i<length ms. (ms ! i) k = Some v \<and>
               (\<forall>j. i < j \<and> j < length ms \<longrightarrow> (ms ! j) k = None)))"
    by blast
next
  assume "i < length ss \<and> (ss ! i) pp = Inl err \<and> (\<forall>j<i. \<exists>m. (ss ! j) pp = Inr m)"
  then have "i < length ss" "(ss ! i) pp = Inl err" "\<forall>j<i. \<exists>m. (ss ! j) pp = Inr m"
    by blast+
  then show "Sources_Parse ss pp = Inl err"
    unfolding Sources_Parse_def by (rule Sources_loop_err)
qed

theorem Sources_Parse_merge_witness:
  "Sources_Parse [SourceStub [''a'' \<mapsto> ''1''], SourceStub [''a'' \<mapsto> ''2'', ''b'' \<mapsto> ''3'']] []
     = Inr [''a'' \<mapsto> ''2'', ''b'' \<mapsto> ''3''] \<and>
   Sources_Parse [SourceStub [''a'' \<mapsto> ''1''], (\<lambda>pp. Inl (Error ''bad'')), SourceStub [''b'' \<mapsto> ''3'']] []
     = Inl (Error ''bad'')"
proof -
  let ?ms = "[[''a'' \<mapsto> ''1''], [''a'' \<mapsto> ''2'', ''b'' \<mapsto> ''3'']] :: smap list"
  let ?ss = "[SourceStub [''a'' \<mapsto> ''1''], SourceStub [''a'' \<mapsto> ''2'', ''b'' \<mapsto> ''3'']]"
  have h: "length ?ms = length ?ss \<and> (\<forall>i<length ?ss. (?ss ! i) [] = Inr (?ms ! i))"
    by (simp add: SourceStub_def less_Suc_eq)
  obtain vals where v: "Sources_Parse ?ss [] = Inr vals"
    and c: "\<forall>k v. vals k = Some v \<longleftrightarrow>
            (\<exists>i<length ?ms. (?ms ! i) k = Some v \<and>
               (\<forall>j. i < j \<and> j < length ?ms \<longrightarrow> (?ms ! j) k = None))"
    using Sources_Parse_merge [where ms = ?ms and ss = ?ss and pp = "[]"] h by blast
  have "vals = [''a'' \<mapsto> ''2'', ''b'' \<mapsto> ''3'']"
    using v by (simp add: Sources_Parse_def SourceStub_def)
  moreover
  let ?ss2 = "[SourceStub [''a'' \<mapsto> ''1''], (\<lambda>pp. Inl (Error ''bad'')), SourceStub [''b'' \<mapsto> ''3'']]"
  have "1 < length ?ss2 \<and> (?ss2 ! 1) [] = Inl (Error ''bad'') \<and> (\<forall>j<1. \<exists>m. (?ss2 ! j) [] = Inr m)"
    by (simp add: SourceStub_def)
  then have "Sources_Parse ?ss2 [] = Inl (Error ''bad'')"
    using Sources_Parse_merge [where i = 1 and ss = ?ss2 and pp = "[]" and err = "Error ''bad''"]
    by blast
  ultimately show ?thesis using v by simp
qed

end
